theory Spec2Isabelle
  imports Main
begin

section \<open>Storefront data\<close>

text \<open>
  The records follow the GraphQL fragments \<^verbatim>\<open>ProductVariant\<close> and
  \<^verbatim>\<open>FeaturedProduct\<close> of \<^verbatim>\<open>routes/_index.tsx\<close>: a nullable field is an
  \<open>option\<close>. Field names that clash with a constant of HOL or with another record carry
  a suffix (\<open>id_v\<close>, \<open>image_v\<close>, \<open>title_v\<close> of a variant; \<open>name_o\<close>, \<open>value_o\<close> of a
  selected option; \<open>id_p\<close>, \<open>title_p\<close> of a product).
\<close>

record money =
  amount :: string
  currencyCode :: string

record image_ref =
  image_id :: "string option"
  url :: string
  altText :: "string option"
  width :: "nat option"
  height :: "nat option"

record selected_option =
  name_o :: string
  value_o :: string

record product_ref =
  ref_title :: string
  ref_handle :: string

record variant =
  availableForSale :: bool
  compareAtPrice :: "money option"
  id_v :: string
  image_v :: "image_ref option"
  price :: money
  product_v :: product_ref
  selectedOptions :: "selected_option list"
  sku :: "string option"
  title_v :: string
  unitPrice :: "money option"

record variant_edge =
  node :: variant

record variant_connection =
  edges :: "variant_edge list"

record product =
  id_p :: string
  title_p :: string
  vendor :: string
  handle :: string
  selectedOrFirstAvailableVariant :: "variant option"
  adjacentVariants :: "variant list"
  variants :: variant_connection

section \<open>ProductCard.tsx: the pure parts\<close>

subsection \<open>addFakeSaleOnSomeProducts\<close>

text \<open>
  \<^verbatim>\<open>Math.random() < 0.5\<close> is the only source of nondeterminism of the component. The
  model takes the outcomes of that test as an argument: \<open>random i\<close> is the outcome at the
  \<open>i\<close>-th element that \<^verbatim>\<open>variants.map\<close> visits. Every render draws afresh, so every
  render has a \<open>random\<close> of its own.
\<close>

type_synonym coins = "nat \<Rightarrow> bool"

definition addFakeSaleOnSomeProducts :: "coins \<Rightarrow> variant list \<Rightarrow> variant list" where
  "addFakeSaleOnSomeProducts random vs =
     map (\<lambda>(i, variant).
            let shouldAddSale = random i in
            if shouldAddSale
            then variant\<lparr>compareAtPrice := Some \<lparr>amount = ''300.0'', currencyCode = ''CAD''\<rparr>\<rparr>
            else variant)
         (List.enumerate 0 vs)"

text \<open>Line 99: the variants as the product lists them.\<close>

definition product_variants :: "product \<Rightarrow> variant list" where
  "product_variants p = map (\<lambda>edge. node edge) (edges (variants p))"

text \<open>Line 100: the \<^verbatim>\<open>variants\<close> array of one render.\<close>

definition card_variants :: "product \<Rightarrow> coins \<Rightarrow> variant list" where
  "card_variants p random = addFakeSaleOnSomeProducts random (product_variants p)"

subsection \<open>The card state and its handlers\<close>

record card_state =
  selectedVariant :: variant
  hoverVariant :: "variant option"
  isHovering :: bool

text \<open>
  \<^verbatim>\<open>String.prototype.toLowerCase\<close> is a function of the language, defined over all
  of Unicode. The handler takes it as its first argument, under its own name, so that
  what is proved of the handler holds for the function the browser runs: two strings
  match case-insensitively when their images under it are equal, as in the source.
\<close>

text \<open>The predicate that \<^verbatim>\<open>handleVariantClick\<close> hands to \<^verbatim>\<open>variants.find\<close>.\<close>

definition hasColor :: "(string \<Rightarrow> string) \<Rightarrow> string \<Rightarrow> variant \<Rightarrow> bool" where
  "hasColor toLowerCase colorName v =
     list_ex (\<lambda>opt. toLowerCase (name_o opt) = ''color'' \<and>
                    toLowerCase (value_o opt) = toLowerCase colorName)
             (selectedOptions v)"

text \<open>
  \<^verbatim>\<open>Array.prototype.find\<close> is \<^const>\<open>List.find\<close>: the first element that satisfies the
  predicate, \<open>None\<close> for \<^verbatim>\<open>undefined\<close>. A variant is an object, hence truthy.
\<close>

definition handleVariantClick ::
  "(string \<Rightarrow> string) \<Rightarrow> variant list \<Rightarrow> string \<Rightarrow> card_state \<Rightarrow> card_state" where
  "handleVariantClick toLowerCase vs colorName st =
     (case List.find (hasColor toLowerCase colorName) vs of
        Some matchingVariant \<Rightarrow>
          st\<lparr>selectedVariant := matchingVariant, hoverVariant := None, isHovering := False\<rparr>
      | None \<Rightarrow> st)"

definition handleMouseEnter :: "card_state \<Rightarrow> card_state" where
  "handleMouseEnter st = st\<lparr>isHovering := True\<rparr>"

definition handleMouseLeave :: "card_state \<Rightarrow> card_state" where
  "handleMouseLeave st = st\<lparr>isHovering := False, hoverVariant := None\<rparr>"

text \<open>\<^verbatim>\<open>Array.prototype.findIndex\<close>: the first index, \<open>-1\<close> when there is none.\<close>

fun findIndex :: "('a \<Rightarrow> bool) \<Rightarrow> 'a list \<Rightarrow> int" where
  "findIndex P [] = - 1"
| "findIndex P (x # xs) =
     (if P x then 0
      else (let i = findIndex P xs in if i < 0 then - 1 else i + 1))"

text \<open>
  The updater that the interval hands to \<^verbatim>\<open>setHoverVariant\<close> (lines 147-153), with the
  \<^verbatim>\<open>variants\<close> and \<^verbatim>\<open>selectedVariant\<close> its closure captured. \<open>currentIndex + 1\<close> is
  never negative, so JavaScript's \<^verbatim>\<open>%\<close> is \<open>mod\<close>; on an empty array the index is
  \<^verbatim>\<open>NaN\<close> and the read is \<^verbatim>\<open>undefined\<close>, here \<open>None\<close>.
\<close>

definition nextVariant :: "variant list \<Rightarrow> variant \<Rightarrow> variant option \<Rightarrow> variant option" where
  "nextVariant vs selected prevVariant =
     (let currentIndex =
            findIndex (\<lambda>v. id_v v = (case prevVariant of Some p \<Rightarrow> id_v p
                                                     | None \<Rightarrow> id_v selected)) vs
      in if vs = [] then None
         else Some (vs ! nat ((currentIndex + 1) mod int (length vs))))"

text \<open>The index at which line 151 reads the array, for the bookkeeping of objects below.\<close>

definition nextIndex :: "variant list \<Rightarrow> variant \<Rightarrow> variant option \<Rightarrow> nat option" where
  "nextIndex vs selected prevVariant =
     (let currentIndex =
            findIndex (\<lambda>v. id_v v = (case prevVariant of Some p \<Rightarrow> id_v p
                                                     | None \<Rightarrow> id_v selected)) vs
      in if vs = [] then None
         else Some (nat ((currentIndex + 1) mod int (length vs))))"

subsection \<open>What a render shows\<close>

text \<open>Line 172: \<^verbatim>\<open>hoverVariant || selectedVariant\<close>.\<close>

definition displayedVariant :: "card_state \<Rightarrow> variant" where
  "displayedVariant st =
     (case hoverVariant st of Some h \<Rightarrow> h | None \<Rightarrow> selectedVariant st)"

text \<open>Line 172: the \<^verbatim>\<open>data\<close> of the image.\<close>

definition displayedImage :: "card_state \<Rightarrow> image_ref option" where
  "displayedImage st = image_v (displayedVariant st)"

text \<open>The \<^verbatim>\<open>Price\<close> component (lines 31-46) and its use (lines 218-221).\<close>

datatype price_view =
  Plain money
| Struck money money

definition Price :: "money \<Rightarrow> money option \<Rightarrow> price_view" where
  "Price actualPrice compareAt =
     (case compareAt of
        None \<Rightarrow> Plain actualPrice
      | Some c \<Rightarrow> Struck c actualPrice)"

definition displayedPrice :: "card_state \<Rightarrow> price_view" where
  "displayedPrice st =
     Price (price (selectedVariant st)) (compareAtPrice (selectedVariant st))"

text \<open>Line 163: the "On Sale!" badge.\<close>

definition saleBadge :: "card_state \<Rightarrow> bool" where
  "saleBadge st = (compareAtPrice (selectedVariant st) \<noteq> None)"

section \<open>ProductCard.tsx: the mounted card\<close>

text \<open>
  The hooks run under React's rules, which the model makes explicit.
  \<^item> \<^verbatim>\<open>useState\<close> takes its argument at the first render only; later renders read the
    stored value.
  \<^item> An event handler or an interval callback sees the \<^verbatim>\<open>variants\<close> and the state of
    the render that created it.
  \<^item> When a handler or a callback has run, React compares each state value with the one
    it held, by \<^verbatim>\<open>Object.is\<close>. If none has changed, nothing happens: no render, no
    effect, and the handlers and the interval of the last render stay. Otherwise the
    component renders again. \<^verbatim>\<open>variants\<close> is a fresh array in every render, so the
    dependencies of the effect differ: React runs the cleanup that the previous run of
    the effect returned, then the effect again.
  \<^item> Unmounting runs the last cleanup.

  \<^verbatim>\<open>Object.is\<close> compares \<^verbatim>\<open>isHovering\<close> by value and the two variants by identity, so
  the model keeps, beside every variant it holds, which object it is. An entry of
  \<^verbatim>\<open>variants\<close> is the node of the product itself when the coin spared it (line 94), the
  same object in every render, and a copy made by that render when the coin fell
  (lines 86-92).
\<close>

datatype ref =
  Node nat
| Copy nat nat

text \<open>
  \<open>Node i\<close> is \<^verbatim>\<open>product.variants.edges[i].node\<close>; \<open>Copy k i\<close> is the object that render
  number \<open>k\<close> made at index \<open>i\<close>. \<open>card_refs k random n\<close> lists the objects of the
  \<^verbatim>\<open>variants\<close> array of render \<open>k\<close>, \<open>n\<close> being its length.
\<close>

definition card_refs :: "nat \<Rightarrow> coins \<Rightarrow> nat \<Rightarrow> ref list" where
  "card_refs k random n = map (\<lambda>i. if random i then Copy k i else Node i) [0..<n]"

text \<open>
  A card holds the three state values; which objects \<open>selectedVariant\<close> and
  \<open>hoverVariant\<close> are; the \<^verbatim>\<open>variants\<close> of its last render and which objects they are;
  the number of renders so far; the intervals it has registered and not cleared, with
  what their callback captured; the interval that the pending cleanup would clear; and
  the next interval id \<^verbatim>\<open>setInterval\<close> returns, which is also the number of intervals
  the card has ever registered.
\<close>

datatype error = TypeError

record interval =
  interval_id :: nat
  cb_variants :: "variant list"
  cb_refs :: "ref list"
  cb_selectedVariant :: variant

record card =
  state :: card_state
  selected_ref :: ref
  hover_ref :: "ref option"
  render_variants :: "variant list"
  render_refs :: "ref list"
  renders :: nat
  timers :: "interval list"
  cleanup :: "nat option"
  next_id :: nat

definition clearInterval :: "nat \<Rightarrow> card \<Rightarrow> card" where
  "clearInterval i c = c\<lparr>timers := filter (\<lambda>t. interval_id t \<noteq> i) (timers c)\<rparr>"

text \<open>The body of the effect, lines 143-157; what it returns is stored in \<open>cleanup\<close>.\<close>

definition hoverEffect :: "card \<Rightarrow> card" where
  "hoverEffect c =
     (if \<not> isHovering (state c) \<or> length (render_variants c) \<le> 1
      then c\<lparr>cleanup := None\<rparr>
      else let i = next_id c in
           c\<lparr>timers := timers c @
                  [\<lparr>interval_id = i, cb_variants = render_variants c,
                    cb_refs = render_refs c,
                    cb_selectedVariant = selectedVariant (state c)\<rparr>],
             next_id := Suc i,
             cleanup := Some i\<rparr>)"

definition runCleanup :: "card \<Rightarrow> card" where
  "runCleanup c =
     (case cleanup c of
        None \<Rightarrow> c
      | Some i \<Rightarrow> (clearInterval i c)\<lparr>cleanup := None\<rparr>)"

text \<open>A render after the first: new \<^verbatim>\<open>variants\<close>, then cleanup and effect.\<close>

definition render :: "product \<Rightarrow> coins \<Rightarrow> card \<Rightarrow> card" where
  "render p random c =
     hoverEffect
       (runCleanup
          (c\<lparr>render_variants := card_variants p random,
             render_refs := card_refs (renders c) random (length (product_variants p)),
             renders := Suc (renders c)\<rparr>))"

text \<open>
  The first render, lines 99-106. On an empty array \<^verbatim>\<open>variants[0]\<close> is
  \<^verbatim>\<open>undefined\<close> and the render throws at \<^verbatim>\<open>selectedVariant.compareAtPrice\<close>.
\<close>

definition mount :: "product \<Rightarrow> coins \<Rightarrow> error + card" where
  "mount p random =
     (case card_variants p random of
        [] \<Rightarrow> Inl TypeError
      | v # vs \<Rightarrow>
          Inr (hoverEffect
                 \<lparr>state = \<lparr>selectedVariant = v, hoverVariant = None, isHovering = False\<rparr>,
                  selected_ref = (if random 0 then Copy 0 0 else Node 0),
                  hover_ref = None,
                  render_variants = v # vs,
                  render_refs = card_refs 0 random (length (product_variants p)),
                  renders = 1, timers = [], cleanup = None, next_id = 0\<rparr>))"

definition unmount :: "card \<Rightarrow> card" where
  "unmount c = runCleanup c"

text \<open>
  What can happen to a mounted card: the pointer enters or leaves the image, a swatch
  is clicked (with the name of its option value), the interval with a given id elapses.
  An interval that has been cleared does not fire. \<open>dispatch\<close> runs the handler or the
  callback on the state values and notes which objects the two variants now are: the
  entry that \<^verbatim>\<open>find\<close> returned, the entry that line 151 read.
\<close>

datatype event = MouseEnter | MouseLeave | SwatchClick string | Tick nat

definition dispatch :: "(string \<Rightarrow> string) \<Rightarrow> event \<Rightarrow> card \<Rightarrow> card" where
  "dispatch toLowerCase ev c =
     (case ev of
        MouseEnter \<Rightarrow> c\<lparr>state := handleMouseEnter (state c)\<rparr>
      | MouseLeave \<Rightarrow> c\<lparr>state := handleMouseLeave (state c), hover_ref := None\<rparr>
      | SwatchClick colorName \<Rightarrow>
          (let i = findIndex (hasColor toLowerCase colorName) (render_variants c) in
           c\<lparr>state := handleVariantClick toLowerCase (render_variants c) colorName (state c),
             selected_ref := (if i < 0 then selected_ref c else render_refs c ! nat i),
             hover_ref := (if i < 0 then hover_ref c else None)\<rparr>)
      | Tick i \<Rightarrow>
          (case List.find (\<lambda>t. interval_id t = i) (timers c) of
             None \<Rightarrow> c
           | Some t \<Rightarrow>
               c\<lparr>state := (state c)\<lparr>hoverVariant :=
                    nextVariant (cb_variants t) (cb_selectedVariant t)
                      (hoverVariant (state c))\<rparr>,
                 hover_ref :=
                    map_option (\<lambda>k. cb_refs t ! k)
                      (nextIndex (cb_variants t) (cb_selectedVariant t)
                         (hoverVariant (state c)))\<rparr>))"

text \<open>\<^verbatim>\<open>Object.is\<close> on each of the three state values, before and after.\<close>

definition same_state :: "card \<Rightarrow> card \<Rightarrow> bool" where
  "same_state c c' \<longleftrightarrow>
     isHovering (state c') = isHovering (state c) \<and>
     selected_ref c' = selected_ref c \<and>
     hover_ref c' = hover_ref c"

text \<open>
  One step: the event and, when a state value has changed, the render it causes, with
  the coins of that render.
\<close>

definition step ::
  "(string \<Rightarrow> string) \<Rightarrow> product \<Rightarrow> event \<times> coins \<Rightarrow> card \<Rightarrow> card" where
  "step toLowerCase p e c =
     (let c' = dispatch toLowerCase (fst e) c in
      if same_state c c' then c else render p (snd e) c')"

fun run ::
  "(string \<Rightarrow> string) \<Rightarrow> product \<Rightarrow> (event \<times> coins) list \<Rightarrow> card \<Rightarrow> card" where
  "run toLowerCase p [] c = c"
| "run toLowerCase p (e # es) c = run toLowerCase p es (step toLowerCase p e c)"

text \<open>
  \<open>hover_ticks lc p rs c\<close>: the pointer stays and \<open>length rs\<close> tick intervals go by; at
  each the pending interval of the card, if it has one, fires, and the render that
  follows draws the coins that \<open>rs\<close> lists.
\<close>

fun hover_ticks ::
  "(string \<Rightarrow> string) \<Rightarrow> product \<Rightarrow> coins list \<Rightarrow> card \<Rightarrow> card" where
  "hover_ticks toLowerCase p [] c = c"
| "hover_ticks toLowerCase p (r # rs) c =
     hover_ticks toLowerCase p rs
       (case timers c of
          [] \<Rightarrow> c
        | t # _ \<Rightarrow> step toLowerCase p (Tick (interval_id t), r) c)"

section \<open>routes/_index.tsx: the catalog fetch\<close>

text \<open>
  A promise is taken in the state it has when it is looked at. The loader's effects are
  the queries it sends and the lines it logs with \<^verbatim>\<open>console.error\<close>.
\<close>

datatype 'a promise = Pending | Fulfilled 'a | Rejected string

record products_connection =
  nodes :: "product list"

record recommended_products_query =
  products :: products_connection

record loader_io =
  queries_sent :: nat
  console_error :: "string list"

text \<open>
  \<^verbatim>\<open>context.storefront.query\<close> belongs to the commerce SDK: the model takes the promise
  it answers with as a field of the context and counts the call.
\<close>

record loader_context =
  storefront_reply :: "recommended_products_query promise"

definition storefront_query ::
  "loader_context \<Rightarrow> loader_io \<Rightarrow> recommended_products_query promise \<times> loader_io" where
  "storefront_query context io =
     (storefront_reply context, io\<lparr>queries_sent := Suc (queries_sent io)\<rparr>)"

text \<open>
  Lines 19-30. \<^verbatim>\<open>.catch\<close> leaves a pending or fulfilled promise alone and turns a
  rejected one into the promise of what the handler returns, \<^verbatim>\<open>null\<close>.
\<close>

definition loadDeferredData ::
  "loader_context \<Rightarrow> loader_io \<Rightarrow> recommended_products_query option promise \<times> loader_io" where
  "loadDeferredData context io =
     (let (reply, io1) = storefront_query context io in
      case reply of
        Pending \<Rightarrow> (Pending, io1)
      | Fulfilled r \<Rightarrow> (Fulfilled (Some r), io1)
      | Rejected e \<Rightarrow> (Fulfilled None, io1\<lparr>console_error := console_error io1 @ [e]\<rparr>))"

text \<open>
  Lines 46-65, what stands between the heading and the line break: the fallback of
  \<^verbatim>\<open>Suspense\<close> while the promise is pending; nothing for \<^verbatim>\<open>null\<close>; the grid with one
  \<^verbatim>\<open>ProductCard\<close> for each product otherwise. \<^verbatim>\<open>Await\<close> has no
  \<^verbatim>\<open>errorElement\<close>: a rejected promise would throw to the error boundary of the route.
\<close>

datatype section_view =
  Fallback string
| Nothing
| Grid "product list"
| Thrown string

definition RecommendedProducts :: "recommended_products_query option promise \<Rightarrow> section_view" where
  "RecommendedProducts pr =
     (case pr of
        Pending \<Rightarrow> Fallback ''Loading...''
      | Fulfilled response \<Rightarrow>
          (case response of
             None \<Rightarrow> Nothing
           | Some r \<Rightarrow> Grid (nodes (products r)))
      | Rejected e \<Rightarrow> Thrown e)"

section \<open>Example data\<close>

text \<open>
  On a string of ASCII characters \<^verbatim>\<open>toLowerCase\<close> lowers the letters A to Z and
  leaves the rest. The examples are such strings.
\<close>

definition ascii_lower :: "string \<Rightarrow> string" where
  "ascii_lower s =
     map (\<lambda>c. case map_of (zip ''ABCDEFGHIJKLMNOPQRSTUVWXYZ''
                                   ''abcdefghijklmnopqrstuvwxyz'') c of
                 Some l \<Rightarrow> l
               | None \<Rightarrow> c) s"

text \<open>The scenario of the specification: a product in red and in blue.\<close>

definition example_variant :: "string \<Rightarrow> string \<Rightarrow> string \<Rightarrow> money option \<Rightarrow> variant" where
  "example_variant i color amt cmp =
     \<lparr>availableForSale = True, compareAtPrice = cmp, id_v = i,
      image_v = Some \<lparr>image_id = None, url = color, altText = None,
                      width = None, height = None\<rparr>,
      price = \<lparr>amount = amt, currencyCode = ''CAD''\<rparr>,
      product_v = \<lparr>ref_title = ''Shirt'', ref_handle = ''shirt''\<rparr>,
      selectedOptions = [\<lparr>name_o = ''Color'', value_o = color\<rparr>],
      sku = None, title_v = color, unitPrice = None\<rparr>"

definition red :: variant where
  "red = example_variant ''1'' ''Red'' ''10'' None"

definition blue :: variant where
  "blue = example_variant ''2'' ''Blue'' ''12'' (Some \<lparr>amount = ''8'', currencyCode = ''CAD''\<rparr>)"

definition example_product :: "variant list \<Rightarrow> product" where
  "example_product vs =
     \<lparr>id_p = ''p'', title_p = ''Shirt'', vendor = ''Acme'', handle = ''shirt'',
      selectedOrFirstAvailableVariant = None, adjacentVariants = [],
      variants = \<lparr>edges = map (\<lambda>v. \<lparr>node = v\<rparr>) vs\<rparr>\<rparr>"

definition shirt :: product where
  "shirt = example_product [red, blue]"

text \<open>
  The red shirt is sold out: the first variant of the list is not for sale, and the
  backend designates blue, the first that is.
\<close>

definition red_gone :: variant where
  "red_gone = red\<lparr>availableForSale := False\<rparr>"

definition sold_out :: product where
  "sold_out = (example_product [red_gone, blue])\<lparr>selectedOrFirstAvailableVariant := Some blue\<rparr>"

text \<open>A product with a single variant.\<close>

definition plain :: product where
  "plain = example_product [red]"

text \<open>Coins: none falls; the one of the first entry falls; the one of the second.\<close>

definition no_sale :: coins where
  "no_sale = (\<lambda>_. False)"

definition first_on_sale :: coins where
  "first_on_sale = (\<lambda>i. i = 0)"

definition second_on_sale :: coins where
  "second_on_sale = (\<lambda>i. i = 1)"

section \<open>Invariants of a mounted card\<close>

fun ref_index :: "ref \<Rightarrow> nat" where
  "ref_index (Node i) = i"
| "ref_index (Copy k i) = i"

text \<open>
  \<open>from_product p r v\<close>: \<open>v\<close> is an entry of the \<^verbatim>\<open>variants\<close> array of some render, and
  \<open>r\<close> an object at the index of that entry.
\<close>

definition from_product :: "product \<Rightarrow> ref \<Rightarrow> variant \<Rightarrow> bool" where
  "from_product p r v \<longleftrightarrow>
     ref_index r < length (product_variants p) \<and>
     (\<exists>random. v = card_variants p random ! ref_index r)"

text \<open>
  \<open>timer_ok\<close> holds between an event and the render it causes: the card has no interval,
  or the one interval that the pending cleanup clears. \<open>settled\<close> holds after every
  render: the selected and the hover variant come from the product, and the card has an
  interval exactly when it is hovered and has more than one variant; that interval is
  the last one registered and its callback has captured the current render.
\<close>

definition timer_ok :: "card \<Rightarrow> bool" where
  "timer_ok c \<longleftrightarrow>
     (cleanup c = None \<and> timers c = []) \<or>
     (\<exists>t. cleanup c = Some (interval_id t) \<and> timers c = [t])"

definition variants_ok :: "product \<Rightarrow> card \<Rightarrow> bool" where
  "variants_ok p c \<longleftrightarrow>
     from_product p (selected_ref c) (selectedVariant (state c)) \<and>
     (hover_ref c = None \<longrightarrow> hoverVariant (state c) = None) \<and>
     (\<forall>r. hover_ref c = Some r \<longrightarrow>
          (\<exists>h. hoverVariant (state c) = Some h \<and> from_product p r h))"

definition settled :: "product \<Rightarrow> card \<Rightarrow> bool" where
  "settled p c \<longleftrightarrow>
     (\<exists>random. render_variants c = card_variants p random) \<and>
     map ref_index (render_refs c) = [0..<length (product_variants p)] \<and>
     variants_ok p c \<and>
     (if isHovering (state c) \<and> 1 < length (render_variants c)
      then 0 < next_id c \<and> cleanup c = Some (next_id c - 1) \<and>
           timers c = [\<lparr>interval_id = next_id c - 1, cb_variants = render_variants c,
                        cb_refs = render_refs c,
                        cb_selectedVariant = selectedVariant (state c)\<rparr>]
      else cleanup c = None \<and> timers c = [])"

section \<open>Properties of the pure parts\<close>

subsection \<open>The synthetic sale\<close>

lemma length_addFake: "length (addFakeSaleOnSomeProducts r vs) = length vs"
  by (simp add: addFakeSaleOnSomeProducts_def)

lemma nth_addFake:
  "i < length vs \<Longrightarrow>
   addFakeSaleOnSomeProducts r vs ! i =
     (if r i
      then (vs ! i)\<lparr>compareAtPrice := Some \<lparr>amount = ''300.0'', currencyCode = ''CAD''\<rparr>\<rparr>
      else vs ! i)"
  by (simp add: addFakeSaleOnSomeProducts_def nth_enumerate_eq)

text \<open>
  C10. \<^verbatim>\<open>addFakeSaleOnSomeProducts\<close> returns a list of the same length; at every index
  the variant it returns has the id, title, price, selected options, image, sku,
  availability, product and unit price of the variant it was given, and a compare-at
  price that is either the given one or exactly 300.0 CAD. The last conjunct says the
  same in one equation: the two variants differ in the compare-at price at most.
\<close>

theorem fake_sale_frame:
  "length (addFakeSaleOnSomeProducts random vs) = length vs \<and>
   (\<forall>i<length vs.
      let v = vs ! i; w = addFakeSaleOnSomeProducts random vs ! i in
        id_v w = id_v v \<and> title_v w = title_v v \<and> price w = price v \<and>
        selectedOptions w = selectedOptions v \<and> image_v w = image_v v \<and>
        sku w = sku v \<and> availableForSale w = availableForSale v \<and>
        product_v w = product_v v \<and> unitPrice w = unitPrice v \<and>
        (compareAtPrice w = compareAtPrice v \<or>
         compareAtPrice w = Some \<lparr>amount = ''300.0'', currencyCode = ''CAD''\<rparr>) \<and>
        w = v\<lparr>compareAtPrice := compareAtPrice w\<rparr>)"
  by (simp add: length_addFake nth_addFake Let_def)

text \<open>The coin falls for the second of two variants only: red stays, blue is on sale.\<close>

theorem fake_sale_frame_witness:
  "length (addFakeSaleOnSomeProducts (\<lambda>i. i = 1) [red, blue]) = 2 \<and>
   addFakeSaleOnSomeProducts (\<lambda>i. i = 1) [red, blue] ! 0 = red \<and>
   compareAtPrice (addFakeSaleOnSomeProducts (\<lambda>i. i = 1) [red, blue] ! 1)
     = Some \<lparr>amount = ''300.0'', currencyCode = ''CAD''\<rparr> \<and>
   price (addFakeSaleOnSomeProducts (\<lambda>i. i = 1) [red, blue] ! 1) = price blue"
  using fake_sale_frame [of "\<lambda>i. i = 1" "[red, blue]"]
  by (simp add: Let_def addFakeSaleOnSomeProducts_def enumerate_eq_zip)

subsection \<open>Display resolution\<close>

text \<open>
  C1, as amended. The image is resolved from \<open>hoverVariant\<close> when it is present and from
  \<open>selectedVariant\<close> otherwise. The price and the compare-at price are those of
  \<open>selectedVariant\<close>, whether or not \<open>hoverVariant\<close> is present.
\<close>

theorem display_resolution:
  "displayedImage st =
     image_v (case hoverVariant st of Some h \<Rightarrow> h | None \<Rightarrow> selectedVariant st) \<and>
   displayedPrice st =
     Price (price (selectedVariant st)) (compareAtPrice (selectedVariant st)) \<and>
   displayedPrice (st\<lparr>hoverVariant := h'\<rparr>) = displayedPrice st"
  by (simp add: displayedImage_def displayedVariant_def displayedPrice_def)

text \<open>
  C5. The badge is shown exactly when \<open>selectedVariant\<close> has a compare-at price, so two
  states with the same \<open>selectedVariant\<close> agree on it, whatever their \<open>hoverVariant\<close> and
  \<open>isHovering\<close>.
\<close>

theorem sale_badge_pinned:
  assumes "selectedVariant st = selectedVariant st'"
  shows "saleBadge st = saleBadge st' \<and>
         saleBadge st = (compareAtPrice (selectedVariant st) \<noteq> None)"
  using assms by (simp add: saleBadge_def)

text \<open>Blue, which is on sale, is selected; in the second state the pointer previews red.\<close>

theorem sale_badge_pinned_witness:
  "selectedVariant \<lparr>selectedVariant = blue, hoverVariant = None, isHovering = False\<rparr> =
     selectedVariant \<lparr>selectedVariant = blue, hoverVariant = Some red, isHovering = True\<rparr> \<and>
   saleBadge \<lparr>selectedVariant = blue, hoverVariant = None, isHovering = False\<rparr> \<and>
   saleBadge \<lparr>selectedVariant = blue, hoverVariant = Some red, isHovering = True\<rparr>"
  using sale_badge_pinned
    [of "\<lparr>selectedVariant = blue, hoverVariant = None, isHovering = False\<rparr>"
        "\<lparr>selectedVariant = blue, hoverVariant = Some red, isHovering = True\<rparr>"]
  by (simp add: saleBadge_def blue_def example_variant_def)

text \<open>
  C6. Pointer-leave sets \<open>isHovering\<close> to false and \<open>hoverVariant\<close> to none and leaves
  \<open>selectedVariant\<close> alone; the image shown is then the one of \<open>selectedVariant\<close>.
\<close>

theorem mouse_leave_reverts:
  "isHovering (handleMouseLeave st) = False \<and>
   hoverVariant (handleMouseLeave st) = None \<and>
   selectedVariant (handleMouseLeave st) = selectedVariant st \<and>
   displayedImage (handleMouseLeave st) = image_v (selectedVariant st)"
  by (simp add: handleMouseLeave_def displayedImage_def displayedVariant_def)

subsection \<open>Selecting a variant by its colour\<close>

lemma find_first:
  "list_ex P xs \<Longrightarrow>
   \<exists>i<length xs. List.find P xs = Some (xs ! i) \<and> P (xs ! i) \<and> (\<forall>j<i. \<not> P (xs ! j))"
proof (induction xs)
  case Nil
  then show ?case by simp
next
  case (Cons x xs)
  show ?case
  proof (cases "P x")
    case True
    then show ?thesis by (intro exI[of _ 0]) simp
  next
    case False
    with Cons obtain i where i: "i < length xs" "List.find P xs = Some (xs ! i)"
      "P (xs ! i)" "\<forall>j<i. \<not> P (xs ! j)"
      by auto
    show ?thesis
    proof (intro exI[of _ "Suc i"] conjI allI impI)
      fix j assume "j < Suc i"
      then show "\<not> P ((x # xs) ! j)" using False i(4) by (cases j) auto
    qed (use False i in auto)
  qed
qed

lemma find_none: "\<not> list_ex P xs \<Longrightarrow> List.find P xs = None"
  by (simp add: find_None_iff list_ex_iff)

lemma findIndex_bounds: "- 1 \<le> findIndex P xs \<and> findIndex P xs < int (length xs)"
  by (induction xs) (auto simp: Let_def)

lemma find_findIndex:
  "List.find P xs =
     (if findIndex P xs < 0 then None else Some (xs ! nat (findIndex P xs)))"
proof (induction xs)
  case Nil
  then show ?case by simp
next
  case (Cons x xs)
  show ?case
  proof (cases "P x")
    case True
    then show ?thesis by simp
  next
    case False
    then show ?thesis
      using Cons findIndex_bounds [of P xs]
      by (auto simp: Let_def nat_add_distrib)
  qed
qed

lemma hasColor_examples:
  "\<not> hasColor ascii_lower ''BLUE'' red" "hasColor ascii_lower ''BLUE'' blue"
  "\<not> hasColor ascii_lower ''Green'' red" "\<not> hasColor ascii_lower ''Green'' blue"
  by (simp_all add: hasColor_def ascii_lower_def red_def blue_def example_variant_def)

text \<open>
  C3. When some variant of the list has an option named "color" whose value matches the
  given name, both compared after \<^verbatim>\<open>toLowerCase\<close>, the click makes the first such
  variant of the list the selected one, clears \<open>hoverVariant\<close> and sets \<open>isHovering\<close> to
  false. The list is the \<^verbatim>\<open>variants\<close> array of the render that made the handler, and
  \<open>toLowerCase\<close> is any function on strings, the one of the language among them.
\<close>

theorem click_selects_first_match:
  assumes "list_ex (hasColor toLowerCase colorName) vs"
  shows "\<exists>i<length vs.
           hasColor toLowerCase colorName (vs ! i) \<and>
           (\<forall>j<i. \<not> hasColor toLowerCase colorName (vs ! j)) \<and>
           handleVariantClick toLowerCase vs colorName st =
             \<lparr>selectedVariant = vs ! i, hoverVariant = None, isHovering = False\<rparr>"
proof -
  from find_first [OF assms] obtain i where
    "i < length vs" "List.find (hasColor toLowerCase colorName) vs = Some (vs ! i)"
    "hasColor toLowerCase colorName (vs ! i)"
    "\<forall>j<i. \<not> hasColor toLowerCase colorName (vs ! j)"
    by blast
  then show ?thesis
    by (intro exI[of _ i]) (simp add: handleVariantClick_def)
qed

text \<open>
  Red is selected and the pointer previews it; the swatch "BLUE" is clicked.
\<close>

theorem click_selects_first_match_witness:
  "list_ex (hasColor ascii_lower ''BLUE'') [red, blue] \<and>
   handleVariantClick ascii_lower [red, blue] ''BLUE''
       \<lparr>selectedVariant = red, hoverVariant = Some red, isHovering = True\<rparr> =
     \<lparr>selectedVariant = blue, hoverVariant = None, isHovering = False\<rparr>"
proof -
  have h: "list_ex (hasColor ascii_lower ''BLUE'') [red, blue]"
    by (simp add: hasColor_examples)
  from click_selects_first_match [OF h,
      of "\<lparr>selectedVariant = red, hoverVariant = Some red, isHovering = True\<rparr>"]
  obtain i where i: "i < length [red, blue]" "hasColor ascii_lower ''BLUE'' ([red, blue] ! i)"
    and c: "handleVariantClick ascii_lower [red, blue] ''BLUE''
              \<lparr>selectedVariant = red, hoverVariant = Some red, isHovering = True\<rparr> =
            \<lparr>selectedVariant = [red, blue] ! i, hoverVariant = None, isHovering = False\<rparr>"
    by blast
  from i have "i = 1"
    by (cases i) (simp_all add: hasColor_examples)
  with h c show ?thesis by simp
qed

text \<open>
  C4. When no variant of the list matches the name, the click returns the state it was
  given: \<open>selectedVariant\<close>, \<open>hoverVariant\<close> and \<open>isHovering\<close> are unchanged, and so they
  are after a second click with the same name. The handler is total: it raises nothing.
\<close>

theorem click_without_match:
  assumes "\<not> list_ex (hasColor toLowerCase colorName) vs"
  shows "handleVariantClick toLowerCase vs colorName st = st \<and>
         handleVariantClick toLowerCase vs colorName
           (handleVariantClick toLowerCase vs colorName st) = st"
  using find_none [OF assms] by (simp add: handleVariantClick_def)

text \<open>
  No shirt is green.
\<close>

theorem click_without_match_witness:
  "\<not> list_ex (hasColor ascii_lower ''Green'') [red, blue] \<and>
   handleVariantClick ascii_lower [red, blue] ''Green''
       \<lparr>selectedVariant = red, hoverVariant = Some blue, isHovering = True\<rparr> =
     \<lparr>selectedVariant = red, hoverVariant = Some blue, isHovering = True\<rparr> \<and>
   handleVariantClick ascii_lower [red, blue] ''Green''
       (handleVariantClick ascii_lower [red, blue] ''Green''
          \<lparr>selectedVariant = red, hoverVariant = Some blue, isHovering = True\<rparr>) =
     \<lparr>selectedVariant = red, hoverVariant = Some blue, isHovering = True\<rparr>"
proof -
  have h: "\<not> list_ex (hasColor ascii_lower ''Green'') [red, blue]"
    by (simp add: hasColor_examples)
  from click_without_match [OF h] h show ?thesis by simp
qed

section \<open>Properties of the mounted card\<close>

subsection \<open>What every render establishes\<close>

lemma length_card_variants: "length (card_variants p r) = length (product_variants p)"
  by (simp add: card_variants_def length_addFake)

lemma nth_card_variants:
  "i < length (product_variants p) \<Longrightarrow>
   card_variants p r ! i =
     (if r i
      then (product_variants p ! i)
             \<lparr>compareAtPrice := Some \<lparr>amount = ''300.0'', currencyCode = ''CAD''\<rparr>\<rparr>
      else product_variants p ! i)"
  by (simp add: card_variants_def nth_addFake)

lemma index_card_refs: "map ref_index (card_refs k r n) = [0..<n]"
  by (rule nth_equalityI) (simp_all add: card_refs_def)

lemma settled_timer_ok: "settled p c \<Longrightarrow> timer_ok c"
  by (auto simp: settled_def timer_ok_def split: if_splits)

lemma render_timer_ok:
  assumes "timer_ok c"
  shows "render p r c =
     (if isHovering (state c) \<and> 1 < length (product_variants p)
      then c\<lparr>render_variants := card_variants p r,
             render_refs := card_refs (renders c) r (length (product_variants p)),
             renders := Suc (renders c),
             timers := [\<lparr>interval_id = next_id c, cb_variants = card_variants p r,
                         cb_refs = card_refs (renders c) r (length (product_variants p)),
                         cb_selectedVariant = selectedVariant (state c)\<rparr>],
             next_id := Suc (next_id c), cleanup := Some (next_id c)\<rparr>
      else c\<lparr>render_variants := card_variants p r,
             render_refs := card_refs (renders c) r (length (product_variants p)),
             renders := Suc (renders c),
             timers := [], cleanup := None\<rparr>)"
  using assms
  by (auto simp: timer_ok_def render_def runCleanup_def clearInterval_def hoverEffect_def
      length_card_variants Let_def)

lemma settled_render:
  assumes "timer_ok c" "variants_ok p c"
  shows "settled p (render p r c)"
  using assms(2) unfolding render_timer_ok [OF assms(1)]
  by (auto simp: settled_def variants_ok_def length_card_variants index_card_refs)

lemma mount_settled:
  assumes "mount p r = Inr c"
  shows "settled p c"
proof -
  let ?n = "length (product_variants p)"
  from assms obtain v vs where cv: "card_variants p r = v # vs"
    and c: "c = hoverEffect
                 \<lparr>state = \<lparr>selectedVariant = v, hoverVariant = None, isHovering = False\<rparr>,
                  selected_ref = (if r 0 then Copy 0 0 else Node 0),
                  hover_ref = None,
                  render_variants = v # vs,
                  render_refs = card_refs 0 r ?n,
                  renders = 1, timers = [], cleanup = None, next_id = 0\<rparr>"
    by (auto simp: mount_def split: list.splits)
  have "0 < ?n"
    using cv length_card_variants [of p r] by (cases "product_variants p") auto
  then have "from_product p (if r 0 then Copy 0 0 else Node 0) v"
    unfolding from_product_def using cv by (auto intro: exI[of _ r])
  moreover have "\<exists>random. v # vs = card_variants p random"
    using cv by (intro exI[of _ r]) simp
  ultimately show ?thesis
    by (simp add: c settled_def variants_ok_def hoverEffect_def index_card_refs)
qed

lemma nth_index_refs:
  "map ref_index rs = [0..<n] \<Longrightarrow> i < n \<Longrightarrow> ref_index (rs ! i) = i"
  by (metis add_0 length_map length_upt minus_nat.diff_0 nth_map nth_upt)

lemma nextVariant_nextIndex:
  "nextVariant vs s h = map_option (\<lambda>k. vs ! k) (nextIndex vs s h)"
  by (simp add: nextVariant_def nextIndex_def Let_def)

lemma nextIndex_bound: "nextIndex vs s h = Some k \<Longrightarrow> k < length vs"
  by (auto simp: nextIndex_def Let_def nat_less_iff split: if_splits)

lemma nextIndex_Some: "vs \<noteq> [] \<Longrightarrow> \<exists>k. nextIndex vs s h = Some k"
  by (simp add: nextIndex_def Let_def)

lemma dispatch_frame:
  "render_variants (dispatch lc ev c) = render_variants c"
  "render_refs (dispatch lc ev c) = render_refs c"
  "renders (dispatch lc ev c) = renders c"
  "timers (dispatch lc ev c) = timers c"
  "cleanup (dispatch lc ev c) = cleanup c"
  "next_id (dispatch lc ev c) = next_id c"
  by (auto simp: dispatch_def Let_def split: event.splits option.splits)

lemma dispatch_variants_ok:
  assumes "settled p c"
  shows "variants_ok p (dispatch lc ev c)"
proof -
  let ?n = "length (product_variants p)"
  from assms obtain r where r: "render_variants c = card_variants p r"
    and ix: "map ref_index (render_refs c) = [0..<?n]"
    and ok: "variants_ok p c"
    by (auto simp: settled_def)
  have entry: "from_product p (render_refs c ! k) (render_variants c ! k)" if "k < ?n" for k
    unfolding from_product_def using that nth_index_refs [OF ix that] r by auto
  show ?thesis
  proof (cases ev)
    case MouseEnter
    then show ?thesis using ok by (simp add: dispatch_def variants_ok_def handleMouseEnter_def)
  next
    case MouseLeave
    then show ?thesis using ok by (simp add: dispatch_def variants_ok_def handleMouseLeave_def)
  next
    case (SwatchClick n)
    let ?i = "findIndex (hasColor lc n) (render_variants c)"
    show ?thesis
    proof (cases "?i < 0")
      case True
      then show ?thesis
        using ok SwatchClick
        by (simp add: dispatch_def handleVariantClick_def find_findIndex Let_def variants_ok_def)
    next
      case False
      then have "nat ?i < ?n"
        using findIndex_bounds [of "hasColor lc n" "render_variants c"]
        by (simp add: r length_card_variants nat_less_iff)
      from entry [OF this] show ?thesis
        using False SwatchClick
        by (simp add: dispatch_def handleVariantClick_def find_findIndex Let_def variants_ok_def)
    qed
  next
    case (Tick i)
    show ?thesis
    proof (cases "List.find (\<lambda>t. interval_id t = i) (timers c)")
      case None
      then show ?thesis using ok Tick by (simp add: dispatch_def)
    next
      case (Some t)
      then have "t \<in> set (timers c)" by (auto simp: find_Some_iff)
      then have t: "cb_variants t = render_variants c" "cb_refs t = render_refs c"
        and big: "1 < length (render_variants c)"
        using assms by (auto simp: settled_def split: if_splits)
      then obtain k where k: "nextIndex (render_variants c) (cb_selectedVariant t)
                                (hoverVariant (state c)) = Some k"
        using nextIndex_Some [of "render_variants c"] by fastforce
      from nextIndex_bound [OF k] have "k < ?n" by (simp add: r length_card_variants)
      from entry [OF this] show ?thesis
        using ok Some Tick k
        by (simp add: dispatch_def t nextVariant_nextIndex variants_ok_def)
    qed
  qed
qed

lemma step_cases:
  "step lc p e c = c \<or> step lc p e c = render p (snd e) (dispatch lc (fst e) c)"
  by (simp add: step_def Let_def)

lemma step_settled:
  assumes "settled p c"
  shows "settled p (step lc p e c)"
proof -
  have "timer_ok (dispatch lc (fst e) c)"
    using settled_timer_ok [OF assms] by (simp add: timer_ok_def dispatch_frame)
  then have "settled p (render p (snd e) (dispatch lc (fst e) c))"
    using dispatch_variants_ok [OF assms] by (intro settled_render) auto
  then show ?thesis
    using assms step_cases [of lc p e c] by auto
qed

lemma run_settled: "settled p c \<Longrightarrow> settled p (run lc p es c)"
  by (induction es arbitrary: c) (auto simp: step_settled)

subsection \<open>The interval\<close>

lemma small_product_no_timer:
  assumes "length (product_variants p) \<le> 1"
  shows "next_id (step lc p e c) = next_id c"
  using assms
  by (auto simp: step_def render_def hoverEffect_def runCleanup_def clearInterval_def
      length_card_variants dispatch_frame Let_def split: option.splits)

lemma small_product_run:
  "length (product_variants p) \<le> 1 \<Longrightarrow> next_id (run lc p es c) = next_id c"
  by (induction es arbitrary: c) (auto simp: small_product_no_timer)

lemma mount_next_id:
  "length (product_variants p) \<le> 1 \<Longrightarrow> mount p r = Inr c \<Longrightarrow> next_id c = 0"
  by (auto simp: mount_def hoverEffect_def split: list.splits)

lemma settled_timers:
  assumes "settled p c"
  shows "length (timers c) \<le> 1"
    and "timers c \<noteq> [] \<longleftrightarrow> isHovering (state c) \<and> 1 < length (product_variants p)"
    and "timers (unmount c) = []"
    and "\<forall>t\<in>set (timers c). interval_id t < next_id c"
  using assms
  by (auto simp: settled_def unmount_def runCleanup_def clearInterval_def length_card_variants
      split: if_splits)

lemma render_fresh_timer:
  assumes "settled p c"
  shows "\<forall>t\<in>set (timers (render p r (dispatch lc ev c))). interval_id t = next_id c"
proof -
  have "timer_ok (dispatch lc ev c)"
    using settled_timer_ok [OF assms] by (simp add: timer_ok_def dispatch_frame)
  from render_timer_ok [OF this] show ?thesis
    by (simp add: dispatch_frame)
qed

lemma step_skip: "same_state c (dispatch lc (fst e) c) \<Longrightarrow> step lc p e c = c"
  by (simp add: step_def)

lemma step_render:
  "\<not> same_state c (dispatch lc (fst e) c) \<Longrightarrow>
   step lc p e c = render p (snd e) (dispatch lc (fst e) c)"
  by (simp add: step_def)

subsection \<open>The example cards\<close>

lemmas card_defs =
  mount_def card_variants_def product_variants_def addFakeSaleOnSomeProducts_def
  card_refs_def hoverEffect_def step_def same_state_def render_def runCleanup_def
  clearInterval_def dispatch_def handleMouseEnter_def handleMouseLeave_def
  nextVariant_def nextIndex_def enumerate_eq_zip upt_rec
  example_product_def no_sale_def first_on_sale_def second_on_sale_def

lemma example_ids: "id_v red = ''1''" "id_v blue = ''2''" "id_v red_gone = ''1''"
  by (simp_all add: red_def blue_def red_gone_def example_variant_def)

lemma example_neq:
  "red \<noteq> blue" "red_gone \<noteq> blue"
  "blue\<lparr>compareAtPrice := Some \<lparr>amount = ''300.0'', currencyCode = ''CAD''\<rparr>\<rparr> \<noteq> blue"
  "red_gone\<lparr>compareAtPrice := Some \<lparr>amount = ''300.0'', currencyCode = ''CAD''\<rparr>\<rparr> \<noteq> red_gone"
  "red_gone\<lparr>compareAtPrice := Some \<lparr>amount = ''300.0'', currencyCode = ''CAD''\<rparr>\<rparr> \<noteq> blue"
  by (simp_all add: red_def blue_def red_gone_def example_variant_def)

lemma shirt_variants: "product_variants shirt = [red, blue]"
  by (simp add: product_variants_def shirt_def example_product_def)

lemma shirt_mount:
  "mount shirt no_sale =
     Inr \<lparr>state = \<lparr>selectedVariant = red, hoverVariant = None, isHovering = False\<rparr>,
          selected_ref = Node 0, hover_ref = None,
          render_variants = [red, blue], render_refs = [Node 0, Node 1], renders = 1,
          timers = [], cleanup = None, next_id = 0\<rparr>"
  by (simp add: card_defs shirt_def)

lemma shirt_enter:
  "run ascii_lower shirt [(MouseEnter, no_sale)] (projr (mount shirt no_sale)) =
     \<lparr>state = \<lparr>selectedVariant = red, hoverVariant = None, isHovering = True\<rparr>,
      selected_ref = Node 0, hover_ref = None,
      render_variants = [red, blue], render_refs = [Node 0, Node 1], renders = 2,
      timers = [\<lparr>interval_id = 0, cb_variants = [red, blue],
                 cb_refs = [Node 0, Node 1], cb_selectedVariant = red\<rparr>],
      cleanup = Some 0, next_id = 1\<rparr>"
  unfolding shirt_mount by (simp add: card_defs shirt_def)

lemma shirt_tick:
  "state (hover_ticks ascii_lower shirt [no_sale]
            (run ascii_lower shirt [(MouseEnter, no_sale)] (projr (mount shirt no_sale)))) =
     \<lparr>selectedVariant = red, hoverVariant = Some blue, isHovering = True\<rparr>"
  unfolding shirt_enter by (simp add: card_defs shirt_def example_ids)

lemma shirt_three_ticks:
  "state (hover_ticks ascii_lower shirt [no_sale, no_sale, no_sale]
            (run ascii_lower shirt [(MouseEnter, no_sale)] (projr (mount shirt no_sale)))) =
     \<lparr>selectedVariant = red, hoverVariant = Some blue, isHovering = True\<rparr>"
  unfolding shirt_enter by (simp add: card_defs shirt_def example_ids)

text \<open>What the next event does to the hovered card of the shirt.\<close>

lemma shirt_enter_again:
  "step ascii_lower shirt (MouseEnter, no_sale)
     (run ascii_lower shirt [(MouseEnter, no_sale)] (projr (mount shirt no_sale))) =
   run ascii_lower shirt [(MouseEnter, no_sale)] (projr (mount shirt no_sale))"
  unfolding shirt_enter by (simp add: card_defs)

lemma shirt_enter_green:
  "step ascii_lower shirt (SwatchClick ''Green'', no_sale)
     (run ascii_lower shirt [(MouseEnter, no_sale)] (projr (mount shirt no_sale))) =
   run ascii_lower shirt [(MouseEnter, no_sale)] (projr (mount shirt no_sale))"
  unfolding shirt_enter
  by (simp add: card_defs hasColor_examples handleVariantClick_def)

lemma shirt_enter_tick:
  "timers (step ascii_lower shirt (Tick 0, no_sale)
             (run ascii_lower shirt [(MouseEnter, no_sale)] (projr (mount shirt no_sale)))) =
     [\<lparr>interval_id = 1, cb_variants = [red, blue], cb_refs = [Node 0, Node 1],
       cb_selectedVariant = red\<rparr>]"
  unfolding shirt_enter by (simp add: card_defs shirt_def example_ids)

lemma shirt_enter_leave:
  "timers (step ascii_lower shirt (MouseLeave, no_sale)
             (run ascii_lower shirt [(MouseEnter, no_sale)] (projr (mount shirt no_sale)))) = []"
  "\<not> isHovering (state (step ascii_lower shirt (MouseLeave, no_sale)
             (run ascii_lower shirt [(MouseEnter, no_sale)] (projr (mount shirt no_sale)))))"
  unfolding shirt_enter by (simp_all add: card_defs shirt_def)

lemma plain_mount:
  "mount plain no_sale =
     Inr \<lparr>state = \<lparr>selectedVariant = red, hoverVariant = None, isHovering = False\<rparr>,
          selected_ref = Node 0, hover_ref = None,
          render_variants = [red], render_refs = [Node 0], renders = 1,
          timers = [], cleanup = None, next_id = 0\<rparr>"
  by (simp add: card_defs plain_def)

lemma plain_enter:
  "run ascii_lower plain [(MouseEnter, no_sale)] (projr (mount plain no_sale)) =
     \<lparr>state = \<lparr>selectedVariant = red, hoverVariant = None, isHovering = True\<rparr>,
      selected_ref = Node 0, hover_ref = None,
      render_variants = [red], render_refs = [Node 0], renders = 2,
      timers = [], cleanup = None, next_id = 0\<rparr>"
  unfolding plain_mount by (simp add: card_defs plain_def)

text \<open>The coin falls for blue in the render after the pointer entered.\<close>

lemma shirt_enter_sale:
  "run ascii_lower shirt [(MouseEnter, second_on_sale)] (projr (mount shirt no_sale)) =
     \<lparr>state = \<lparr>selectedVariant = red, hoverVariant = None, isHovering = True\<rparr>,
      selected_ref = Node 0, hover_ref = None,
      render_variants = [red, blue\<lparr>compareAtPrice := Some \<lparr>amount = ''300.0'', currencyCode = ''CAD''\<rparr>\<rparr>],
      render_refs = [Node 0, Copy 1 1], renders = 2,
      timers = [\<lparr>interval_id = 0,
                 cb_variants = [red, blue\<lparr>compareAtPrice := Some \<lparr>amount = ''300.0'', currencyCode = ''CAD''\<rparr>\<rparr>],
                 cb_refs = [Node 0, Copy 1 1], cb_selectedVariant = red\<rparr>],
      cleanup = Some 0, next_id = 1\<rparr>"
  unfolding shirt_mount by (simp add: card_defs shirt_def)

lemma shirt_sale_tick:
  "hover_ticks ascii_lower shirt [no_sale]
     (run ascii_lower shirt [(MouseEnter, second_on_sale)] (projr (mount shirt no_sale))) =
     \<lparr>state = \<lparr>selectedVariant = red,
               hoverVariant = Some (blue\<lparr>compareAtPrice := Some \<lparr>amount = ''300.0'', currencyCode = ''CAD''\<rparr>\<rparr>),
               isHovering = True\<rparr>,
      selected_ref = Node 0, hover_ref = Some (Copy 1 1),
      render_variants = [red, blue],
      render_refs = [Node 0, Node 1], renders = 3,
      timers = [\<lparr>interval_id = 1, cb_variants = [red, blue],
                 cb_refs = [Node 0, Node 1], cb_selectedVariant = red\<rparr>],
      cleanup = Some 1, next_id = 2\<rparr>"
  unfolding shirt_enter_sale by (simp add: card_defs shirt_def example_ids)

lemma sold_out_variants: "product_variants sold_out = [red_gone, blue]"
  by (simp add: product_variants_def sold_out_def example_product_def)

lemma sold_out_mount:
  "mount sold_out no_sale =
     Inr \<lparr>state = \<lparr>selectedVariant = red_gone, hoverVariant = None, isHovering = False\<rparr>,
          selected_ref = Node 0, hover_ref = None,
          render_variants = [red_gone, blue], render_refs = [Node 0, Node 1], renders = 1,
          timers = [], cleanup = None, next_id = 0\<rparr>"
  by (simp add: card_defs sold_out_def)

lemma sold_out_mount_sale:
  "mount sold_out first_on_sale =
     Inr \<lparr>state = \<lparr>selectedVariant =
                      red_gone\<lparr>compareAtPrice := Some \<lparr>amount = ''300.0'', currencyCode = ''CAD''\<rparr>\<rparr>,
                    hoverVariant = None, isHovering = False\<rparr>,
          selected_ref = Copy 0 0, hover_ref = None,
          render_variants = [red_gone\<lparr>compareAtPrice := Some \<lparr>amount = ''300.0'', currencyCode = ''CAD''\<rparr>\<rparr>, blue],
          render_refs = [Copy 0 0, Node 1], renders = 1,
          timers = [], cleanup = None, next_id = 0\<rparr>"
  by (simp add: card_defs sold_out_def)

subsection \<open>The first render\<close>

text \<open>
  C7, as amended. A card of a product with at least one variant mounts, and its first
  state has as \<open>selectedVariant\<close> the first variant of the product in list order, with
  the synthetic compare-at price in place of its own when the coin of the first render
  fell for it; \<open>hoverVariant\<close> is none and \<open>isHovering\<close> is false. The variant that the
  backend designates as selected or first available has no part in it: whatever is put
  in that field, the card mounts the same.
\<close>

theorem initial_selection:
  assumes "product_variants p \<noteq> []"
  shows "\<exists>c. mount p random = Inr c \<and>
             selectedVariant (state c) = card_variants p random ! 0 \<and>
             card_variants p random ! 0 =
               (if random 0
                then (product_variants p ! 0)
                       \<lparr>compareAtPrice := Some \<lparr>amount = ''300.0'', currencyCode = ''CAD''\<rparr>\<rparr>
                else product_variants p ! 0) \<and>
             hoverVariant (state c) = None \<and>
             isHovering (state c) = False \<and>
             mount (p\<lparr>selectedOrFirstAvailableVariant := designated\<rparr>) random = Inr c"
proof -
  from assms have n: "0 < length (product_variants p)" by simp
  then obtain v vs where cv: "card_variants p random = v # vs"
    using length_card_variants [of p random] by (cases "card_variants p random") auto
  have same: "card_variants (p\<lparr>selectedOrFirstAvailableVariant := designated\<rparr>) random
              = card_variants p random"
    "product_variants (p\<lparr>selectedOrFirstAvailableVariant := designated\<rparr>)
              = product_variants p"
    by (simp_all add: card_variants_def product_variants_def)
  show ?thesis
    using nth_card_variants [OF n, of random]
    by (simp add: mount_def same cv hoverEffect_def)
qed

text \<open>
  The red shirt is sold out and the backend designates blue; the coin falls for the
  first entry. The card starts on red, on sale.
\<close>

theorem initial_selection_witness:
  "product_variants sold_out \<noteq> [] \<and>
   (\<exists>c. mount sold_out first_on_sale = Inr c \<and>
        selectedVariant (state c) =
          red_gone\<lparr>compareAtPrice := Some \<lparr>amount = ''300.0'', currencyCode = ''CAD''\<rparr>\<rparr> \<and>
        hoverVariant (state c) = None \<and> isHovering (state c) = False \<and>
        mount (sold_out\<lparr>selectedOrFirstAvailableVariant := None\<rparr>) first_on_sale = Inr c)"
proof -
  have h: "product_variants sold_out \<noteq> []" by (simp add: sold_out_variants)
  have "product_variants sold_out ! 0 = red_gone" "first_on_sale 0"
    by (simp_all add: sold_out_variants first_on_sale_def)
  with initial_selection [OF h, of first_on_sale None] h show ?thesis
    by auto
qed

text \<open>
  The same product. Without a sale the card starts on red, the first of the list, though
  the backend designates blue, the first available. When the coin falls for the first
  entry the card starts on a variant that is neither the product's first variant nor
  the designated one: red with the synthetic compare-at price.
\<close>

theorem initial_selection_counterexample:
  "product_variants sold_out ! 0 = red_gone \<and>
   selectedOrFirstAvailableVariant sold_out = Some blue \<and>
   map_sum id (\<lambda>c. selectedVariant (state c)) (mount sold_out no_sale) = Inr red_gone \<and>
   red_gone \<noteq> blue \<and>
   map_sum id (\<lambda>c. selectedVariant (state c)) (mount sold_out first_on_sale) =
     Inr (red_gone\<lparr>compareAtPrice := Some \<lparr>amount = ''300.0'', currencyCode = ''CAD''\<rparr>\<rparr>) \<and>
   red_gone\<lparr>compareAtPrice := Some \<lparr>amount = ''300.0'', currencyCode = ''CAD''\<rparr>\<rparr> \<noteq> red_gone \<and>
   red_gone\<lparr>compareAtPrice := Some \<lparr>amount = ''300.0'', currencyCode = ''CAD''\<rparr>\<rparr> \<noteq> blue"
proof -
  have "selectedOrFirstAvailableVariant sold_out = Some blue"
    by (simp add: sold_out_def)
  then show ?thesis
    unfolding sold_out_mount sold_out_mount_sale sold_out_variants
    by (simp add: example_neq)
qed

subsection \<open>One interval at most\<close>

text \<open>
  C8. In every card that a mounted card reaches by events and renders: at most one
  interval is registered; one is registered exactly when \<open>isHovering\<close> is true and the
  product has more than one variant; a card of a product with one variant has never
  registered any (the test on the number of variants stands in the effect, before
  \<^verbatim>\<open>setInterval\<close>, and not in the callback). Whatever happens next: if no state value
  changes, the card stays as it is, its interval with it; if one changes, the
  dependencies of the effect change with the render, which clears the interval that was
  pending, so that an interval registered afterwards is a new one; and if \<open>isHovering\<close>
  is false afterwards, no interval is left. Unmounting leaves no interval behind.
\<close>

theorem one_timer:
  assumes "mount p r0 = Inr c0"
  shows "let c = run toLowerCase p es c0; n = length (product_variants p) in
           length (timers c) \<le> 1 \<and>
           (timers c \<noteq> [] \<longleftrightarrow> isHovering (state c) \<and> 1 < n) \<and>
           (n = 1 \<longrightarrow> next_id c = 0) \<and>
           (\<forall>e. if same_state c (dispatch toLowerCase (fst e) c)
                then step toLowerCase p e c = c
                else \<forall>t\<in>set (timers c).
                       interval_id t \<notin> interval_id ` set (timers (step toLowerCase p e c))) \<and>
           (\<forall>e. \<not> isHovering (state (step toLowerCase p e c)) \<longrightarrow>
                  timers (step toLowerCase p e c) = []) \<and>
           timers (unmount c) = []"
proof -
  let ?c = "run toLowerCase p es c0"
  have s: "settled p ?c"
    by (rule run_settled) (rule mount_settled [OF assms])
  have fresh: "interval_id t \<notin> interval_id ` set (timers (step toLowerCase p e ?c))"
    if "t \<in> set (timers ?c)" "\<not> same_state ?c (dispatch toLowerCase (fst e) ?c)" for t e
    using settled_timers(4) [OF s] render_fresh_timer [OF s, of "snd e" toLowerCase "fst e"] that
    unfolding step_render [OF that(2)] by fastforce
  have skip: "step toLowerCase p e ?c = ?c"
    if "same_state ?c (dispatch toLowerCase (fst e) ?c)" for e
    by (rule step_skip [OF that])
  have off: "timers (step toLowerCase p e ?c) = []"
    if "\<not> isHovering (state (step toLowerCase p e ?c))" for e
    using settled_timers(2) [OF step_settled [OF s, of toLowerCase e]] that by blast
  have small: "next_id ?c = 0" if "length (product_variants p) = 1"
    using that small_product_run [of p toLowerCase es c0] mount_next_id [OF _ assms] by simp
  have rearm: "if same_state ?c (dispatch toLowerCase (fst e) ?c)
               then step toLowerCase p e ?c = ?c
               else \<forall>t\<in>set (timers ?c).
                      interval_id t \<notin> interval_id ` set (timers (step toLowerCase p e ?c))" for e
    using fresh [of _ e] skip [of e] by (cases "same_state ?c (dispatch toLowerCase (fst e) ?c)") auto
  show ?thesis
    unfolding Let_def using settled_timers(1-3) [OF s] rearm off small by blast
qed

text \<open>
  The pointer enters the card of the shirt: one interval, with id 0. A second
  pointer-enter and a click on a colour the shirt does not have change no state value,
  and the card stays as it is. A tick replaces the interval by the one with id 1; the
  pointer leaving, or unmounting, leaves none. The pointer enters the card of the
  product with one variant: no interval, and none was ever registered.
\<close>

theorem one_timer_witness:
  "mount shirt no_sale = Inr (projr (mount shirt no_sale)) \<and>
   map interval_id
     (timers (run ascii_lower shirt [(MouseEnter, no_sale)] (projr (mount shirt no_sale))))
     = [0] \<and>
   isHovering
     (state (run ascii_lower shirt [(MouseEnter, no_sale)] (projr (mount shirt no_sale)))) \<and>
   step ascii_lower shirt (MouseEnter, no_sale)
     (run ascii_lower shirt [(MouseEnter, no_sale)] (projr (mount shirt no_sale)))
     = run ascii_lower shirt [(MouseEnter, no_sale)] (projr (mount shirt no_sale)) \<and>
   step ascii_lower shirt (SwatchClick ''Green'', no_sale)
     (run ascii_lower shirt [(MouseEnter, no_sale)] (projr (mount shirt no_sale)))
     = run ascii_lower shirt [(MouseEnter, no_sale)] (projr (mount shirt no_sale)) \<and>
   map interval_id
     (timers (step ascii_lower shirt (Tick 0, no_sale)
                (run ascii_lower shirt [(MouseEnter, no_sale)] (projr (mount shirt no_sale)))))
     = [1] \<and>
   timers (step ascii_lower shirt (MouseLeave, no_sale)
             (run ascii_lower shirt [(MouseEnter, no_sale)] (projr (mount shirt no_sale))))
     = [] \<and>
   timers (unmount
             (run ascii_lower shirt [(MouseEnter, no_sale)] (projr (mount shirt no_sale))))
     = [] \<and>
   mount plain no_sale = Inr (projr (mount plain no_sale)) \<and>
   length (product_variants plain) = 1 \<and>
   isHovering
     (state (run ascii_lower plain [(MouseEnter, no_sale)] (projr (mount plain no_sale)))) \<and>
   timers (run ascii_lower plain [(MouseEnter, no_sale)] (projr (mount plain no_sale))) = [] \<and>
   next_id (run ascii_lower plain [(MouseEnter, no_sale)] (projr (mount plain no_sale))) = 0"
proof -
  let ?c = "run ascii_lower shirt [(MouseEnter, no_sale)] (projr (mount shirt no_sale))"
  let ?d = "run ascii_lower plain [(MouseEnter, no_sale)] (projr (mount plain no_sale))"
  have m: "mount shirt no_sale = Inr (projr (mount shirt no_sale))"
    by (simp add: shirt_mount)
  have m': "mount plain no_sale = Inr (projr (mount plain no_sale))"
    by (simp add: plain_mount)
  have n: "length (product_variants plain) = 1"
    by (simp add: product_variants_def plain_def example_product_def)
  have t: "map interval_id (timers (step ascii_lower shirt (Tick 0, no_sale) ?c)) = [1]"
    unfolding shirt_enter_tick by simp
  have e: "map interval_id (timers ?c) = [0]" "isHovering (state ?c)"
    unfolding shirt_enter by simp_all
  have e': "isHovering (state ?d)"
    unfolding plain_enter by simp
  from one_timer [OF m, of ascii_lower "[(MouseEnter, no_sale)]"] shirt_enter_leave(2)
  have "timers (unmount ?c) = [] \<and>
        timers (step ascii_lower shirt (MouseLeave, no_sale) ?c) = []"
    unfolding Let_def by blast
  moreover from one_timer [OF m', of ascii_lower "[(MouseEnter, no_sale)]"] n e'
  have "timers ?d = [] \<and> next_id ?d = 0"
    unfolding Let_def by auto
  ultimately show ?thesis
    using m m' n t e e' shirt_enter_again shirt_enter_green by blast
qed

subsection \<open>The hover cycle\<close>

lemma findIndex_distinct:
  "distinct (map f xs) \<Longrightarrow> i < length xs \<Longrightarrow> findIndex (\<lambda>v. f v = f (xs ! i)) xs = int i"
proof (induction xs arbitrary: i)
  case Nil
  then show ?case by simp
next
  case (Cons x xs)
  show ?case
  proof (cases i)
    case 0
    then show ?thesis by simp
  next
    case (Suc j)
    with Cons.prems have j: "j < length xs" and d: "distinct (map f xs)" and "f x \<notin> f ` set xs"
      by auto
    then have "f x \<noteq> f (xs ! j)" by (metis image_eqI nth_mem)
    moreover have "findIndex (\<lambda>v. f v = f (xs ! j)) xs = int j"
      by (rule Cons.IH [OF d j])
    ultimately show ?thesis using Suc by (simp add: Let_def)
  qed
qed

lemma ids_card_variants: "map id_v (card_variants p r) = map id_v (product_variants p)"
  by (rule nth_equalityI) (simp_all add: length_card_variants nth_card_variants)

lemma id_card_variants:
  "i < length (product_variants p) \<Longrightarrow>
   id_v (card_variants p r ! i) = id_v (product_variants p ! i)"
  by (simp add: nth_card_variants)

lemma nextIndex_distinct:
  assumes "distinct (map id_v vs)" "s < length vs"
    and "(case prev of Some h \<Rightarrow> id_v h | None \<Rightarrow> id_v sel) = id_v (vs ! s)"
  shows "nextIndex vs sel prev = Some ((s + 1) mod length vs)"
proof -
  have "findIndex (\<lambda>v. id_v v = (case prev of Some h \<Rightarrow> id_v h | None \<Rightarrow> id_v sel)) vs = int s"
    unfolding assms(3) by (rule findIndex_distinct [OF assms(1,2)])
  moreover have "vs \<noteq> []" using assms(2) by auto
  moreover have "nat ((int s + 1) mod int (length vs)) = (s + 1) mod length vs"
    by (metis nat_int of_nat_1 of_nat_add zmod_int)
  ultimately show ?thesis by (simp add: nextIndex_def)
qed

lemma from_product_index:
  assumes "from_product p r v" "distinct (map id_v (product_variants p))"
    "m < length (product_variants p)" "id_v v = id_v (product_variants p ! m)"
  shows "ref_index r = m"
proof -
  from assms(1) obtain rnd where i: "ref_index r < length (product_variants p)"
    and v: "v = card_variants p rnd ! ref_index r"
    by (auto simp: from_product_def)
  have "map id_v (product_variants p) ! ref_index r = map id_v (product_variants p) ! m"
    using assms(3,4) i by (simp add: v id_card_variants)
  then show ?thesis
    using assms(2,3) i by (simp add: nth_eq_iff_index_eq del: nth_map)
qed

lemma next_neq: "2 \<le> (n::nat) \<Longrightarrow> s < n \<Longrightarrow> (s + 1) mod n \<noteq> s"
  by (metis Suc_eq_plus1 mod_Suc mod_less n_not_Suc_n nat_less_le not_less_eq_eq numeral_2_eq_2 zero_less_Suc less_le_trans)

lemma state_render: "state (render p r c) = state c"
  by (simp add: render_def hoverEffect_def runCleanup_def clearInterval_def Let_def
      split: option.splits)

text \<open>One tick of a hovered card with at least two variants, all of different ids.\<close>

lemma tick_state:
  assumes "settled p c" "isHovering (state c)" "2 \<le> length (product_variants p)"
    and "distinct (map id_v (product_variants p))"
    and "s < length (product_variants p)"
    and "id_v (displayedVariant (state c)) = id_v (product_variants p ! s)"
  shows "state (hover_ticks lc p [r] c) =
           (state c)\<lparr>hoverVariant :=
              Some (render_variants c ! ((s + 1) mod length (product_variants p)))\<rparr>"
proof -
  let ?n = "length (product_variants p)"
  let ?k = "(s + 1) mod ?n"
  from assms(1) obtain r' where rv: "render_variants c = card_variants p r'"
    and ix: "map ref_index (render_refs c) = [0..<?n]"
    and ok: "variants_ok p c"
    by (auto simp: settled_def)
  define j where "j = next_id c - 1"
  let ?t = "\<lparr>interval_id = j, cb_variants = render_variants c,
              cb_refs = render_refs c, cb_selectedVariant = selectedVariant (state c)\<rparr>"
  have t: "timers c = [?t]"
    using assms(1-3) by (auto simp: settled_def rv length_card_variants j_def)
  have d: "distinct (map id_v (render_variants c))"
    by (simp add: rv ids_card_variants assms(4))
  have l: "length (render_variants c) = ?n"
    by (simp add: rv length_card_variants)
  have i: "(case hoverVariant (state c) of Some h \<Rightarrow> id_v h
           | None \<Rightarrow> id_v (selectedVariant (state c))) = id_v (render_variants c ! s)"
    using assms(5,6) by (simp add: rv id_card_variants displayedVariant_def split: option.splits)
  have n: "nextIndex (render_variants c) (selectedVariant (state c)) (hoverVariant (state c))
           = Some ?k"
    using nextIndex_distinct [OF d _ i] assms(5) by (simp add: l)
  have k: "?k < ?n" using assms(3) by (intro mod_less_divisor) linarith
  let ?c = "dispatch lc (Tick j) c"
  have dc: "?c = c\<lparr>state := (state c)\<lparr>hoverVariant := Some (render_variants c ! ?k)\<rparr>,
                   hover_ref := Some (render_refs c ! ?k)\<rparr>"
    by (simp add: dispatch_def t n nextVariant_nextIndex)
  have "hover_ref c \<noteq> Some (render_refs c ! ?k)"
  proof
    assume a: "hover_ref c = Some (render_refs c ! ?k)"
    with ok obtain h where h: "hoverVariant (state c) = Some h"
      "from_product p (render_refs c ! ?k) h"
      by (auto simp: variants_ok_def)
    from h(1) assms(6) have "id_v h = id_v (product_variants p ! s)"
      by (simp add: displayedVariant_def)
    from from_product_index [OF h(2) assms(4,5) this]
    have "?k = s" unfolding nth_index_refs [OF ix k] .
    with next_neq [OF assms(3,5)] show False by simp
  qed
  then have "\<not> same_state c ?c"
    unfolding same_state_def dc by simp
  then have "step lc p (Tick j, r) c = render p r ?c"
    by (simp add: step_def)
  then show ?thesis
    by (simp add: t state_render dc)
qed

lemma hover_ticks_one:
  "hover_ticks lc p (r # rs) c = hover_ticks lc p rs (hover_ticks lc p [r] c)"
  by simp

lemma hover_ticks_settled: "settled p c \<Longrightarrow> settled p (hover_ticks lc p rs c)"
  by (induction rs arbitrary: c) (auto simp: step_settled split: list.splits)

lemma ticks_ids:
  assumes "2 \<le> length (product_variants p)" "distinct (map id_v (product_variants p))"
  shows "settled p c \<Longrightarrow> isHovering (state c) \<Longrightarrow> s < length (product_variants p) \<Longrightarrow>
         id_v (displayedVariant (state c)) = id_v (product_variants p ! s) \<Longrightarrow>
         isHovering (state (hover_ticks lc p rs c)) \<and>
         id_v (displayedVariant (state (hover_ticks lc p rs c)))
           = id_v (product_variants p ! ((s + length rs) mod length (product_variants p)))"
proof (induction rs arbitrary: c s)
  case Nil
  then show ?case by simp
next
  case (Cons r rs)
  let ?n = "length (product_variants p)"
  let ?c = "hover_ticks lc p [r] c"
  let ?s = "(s + 1) mod ?n"
  from Cons.prems(1) obtain r' where rv: "render_variants c = card_variants p r'"
    by (auto simp: settled_def)
  have st: "state ?c = (state c)\<lparr>hoverVariant := Some (render_variants c ! ?s)\<rparr>"
    by (rule tick_state [OF Cons.prems(1,2) assms Cons.prems(3,4)])
  have s: "?s < ?n" using assms(1) by (intro mod_less_divisor) linarith
  have 1: "settled p ?c" by (rule hover_ticks_settled [OF Cons.prems(1)])
  have 2: "isHovering (state ?c)" using Cons.prems(2) unfolding st by simp
  have 3: "id_v (displayedVariant (state ?c)) = id_v (product_variants p ! ?s)"
    using s unfolding st by (simp add: displayedVariant_def rv id_card_variants)
  have e: "s + length (r # rs) = (s + 1) + length rs" by simp
  have "(?s + length rs) mod ?n = (s + length (r # rs)) mod ?n"
    unfolding e by (rule mod_add_left_eq)
  with Cons.IH [OF 1 2 s 3] show ?case
    unfolding hover_ticks_one [of lc p r rs c] by simp
qed

lemma settled_displayed:
  assumes "settled p c"
  shows "\<exists>r. from_product p r (displayedVariant (state c))"
proof (cases "hover_ref c")
  case None
  with assms show ?thesis
    by (auto simp: settled_def variants_ok_def displayedVariant_def)
next
  case (Some r)
  with assms show ?thesis
    by (auto simp: settled_def variants_ok_def displayedVariant_def)
qed

lemma from_product_at:
  assumes "from_product p r v" "distinct (map id_v (product_variants p))"
    "m < length (product_variants p)" "id_v v = id_v (product_variants p ! m)"
  shows "\<exists>random. v = card_variants p random ! m"
  using assms(1) from_product_index [OF assms] by (auto simp: from_product_def)

text \<open>
  C2, as amended. Take a product with at least two variants, their ids pairwise
  different as the ids of a product's variants are, a card of it that is hovered, and
  the index \<open>start\<close> of the variant it displays (the variant of the product's list with
  the id of \<open>hoverVariant\<close> if that is set, of \<open>selectedVariant\<close> otherwise). After \<open>k\<close>
  tick intervals, with \<open>i\<close> for \<open>(start + k) mod n\<close>: the card is still hovered; the
  variant displayed is the entry \<open>i\<close> of the \<^verbatim>\<open>variants\<close> array of some render, so it is
  the product's variant \<open>i\<close> but for the synthetic compare-at price; the image displayed
  is the image of the product's variant \<open>i\<close>; and one more tick displays the entry
  \<open>(i + 1) mod n\<close> of the \<^verbatim>\<open>variants\<close> array that the card holds when that tick fires.
\<close>

theorem hover_cycle:
  assumes "mount p r0 = Inr c0"
    and "c = run toLowerCase p es c0"
    and "isHovering (state c)"
    and "2 \<le> length (product_variants p)"
    and "distinct (map id_v (product_variants p))"
    and "start < length (product_variants p)"
    and "id_v (displayedVariant (state c)) = id_v (product_variants p ! start)"
  shows "let n = length (product_variants p);
             c' = hover_ticks toLowerCase p rs c;
             i = (start + length rs) mod n in
           isHovering (state c') \<and>
           (\<exists>random. displayedVariant (state c') = card_variants p random ! i) \<and>
           displayedImage (state c') = image_v (product_variants p ! i) \<and>
           (\<forall>r. displayedVariant (state (hover_ticks toLowerCase p [r] c'))
                  = render_variants c' ! ((i + 1) mod n))"
proof -
  let ?n = "length (product_variants p)"
  let ?c = "hover_ticks toLowerCase p rs c"
  let ?k = "(start + length rs) mod ?n"
  have s: "settled p c"
    unfolding assms(2) by (rule run_settled) (rule mount_settled [OF assms(1)])
  have s': "settled p ?c" by (rule hover_ticks_settled [OF s])
  have k: "?k < ?n" using assms(4) by (intro mod_less_divisor) linarith
  from ticks_ids [OF assms(4,5) s assms(3,6,7)]
  have h: "isHovering (state ?c)"
    and i: "id_v (displayedVariant (state ?c)) = id_v (product_variants p ! ?k)"
    by blast+
  from settled_displayed [OF s'] obtain ref where "from_product p ref (displayedVariant (state ?c))" ..
  from from_product_at [OF this assms(5) k i]
  obtain r where d: "displayedVariant (state ?c) = card_variants p r ! ?k" ..
  have img: "displayedImage (state ?c) = image_v (product_variants p ! ?k)"
    using k by (simp add: displayedImage_def d nth_card_variants)
  have nxt: "displayedVariant (state (hover_ticks toLowerCase p [r] ?c))
             = render_variants ?c ! ((?k + 1) mod ?n)" for r
    unfolding tick_state [OF s' h assms(4,5) k i] by (simp add: displayedVariant_def)
  show ?thesis
    unfolding Let_def using h d img nxt by blast
qed

text \<open>
  The shirt, hovered while red is selected: after three ticks the card shows blue, the
  variant at index \<open>(0 + 3) mod 2\<close>.
\<close>

theorem hover_cycle_witness:
  "mount shirt no_sale = Inr (projr (mount shirt no_sale)) \<and>
   isHovering
     (state (run ascii_lower shirt [(MouseEnter, no_sale)] (projr (mount shirt no_sale)))) \<and>
   distinct (map id_v (product_variants shirt)) \<and>
   length (product_variants shirt) = 2 \<and>
   displayedVariant
     (state (run ascii_lower shirt [(MouseEnter, no_sale)] (projr (mount shirt no_sale))))
     = product_variants shirt ! 0 \<and>
   isHovering
     (state (hover_ticks ascii_lower shirt [no_sale, no_sale, no_sale]
               (run ascii_lower shirt [(MouseEnter, no_sale)] (projr (mount shirt no_sale))))) \<and>
   displayedImage
     (state (hover_ticks ascii_lower shirt [no_sale, no_sale, no_sale]
               (run ascii_lower shirt [(MouseEnter, no_sale)] (projr (mount shirt no_sale)))))
     = image_v blue"
proof -
  let ?c = "run ascii_lower shirt [(MouseEnter, no_sale)] (projr (mount shirt no_sale))"
  have m: "mount shirt no_sale = Inr (projr (mount shirt no_sale))"
    by (simp add: shirt_mount)
  have h: "isHovering (state ?c)"
    unfolding shirt_enter by simp
  have n: "2 \<le> length (product_variants shirt)" "length (product_variants shirt) = 2"
    "0 < length (product_variants shirt)"
    by (simp_all add: shirt_variants)
  have d: "distinct (map id_v (product_variants shirt))"
    by (simp add: shirt_variants example_ids)
  have v: "displayedVariant (state ?c) = product_variants shirt ! 0"
    unfolding shirt_enter by (simp add: displayedVariant_def shirt_variants)
  then have i: "id_v (displayedVariant (state ?c)) = id_v (product_variants shirt ! 0)"
    by simp
  have k: "(0 + length [no_sale, no_sale, no_sale]) mod length (product_variants shirt) = 1"
    by (simp add: shirt_variants mod_Suc)
  from hover_cycle [OF m refl h n(1) d n(3) i, of "[no_sale, no_sale, no_sale]"]
  have "isHovering (state (hover_ticks ascii_lower shirt [no_sale, no_sale, no_sale] ?c)) \<and>
        displayedImage (state (hover_ticks ascii_lower shirt [no_sale, no_sale, no_sale] ?c))
          = image_v (product_variants shirt ! 1)"
    unfolding Let_def k by blast
  then show ?thesis
    using m h d n(2) v by (simp add: shirt_variants)
qed

text \<open>
  The pointer enters the card of the shirt, and in the render that follows the coin
  falls for blue. The tick reads that array: the card displays blue with the synthetic
  compare-at price. The render after the tick has no sale. The variant displayed is
  not the product's variant at index \<open>(0 + 1) mod 2\<close> and not the entry at that index of
  the \<^verbatim>\<open>variants\<close> array the card now holds: both are blue with its own compare-at
  price.
\<close>

theorem hover_cycle_counterexample:
  "length (product_variants shirt) = 2 \<and>
   distinct (map id_v (product_variants shirt)) \<and>
   isHovering
     (state (run ascii_lower shirt [(MouseEnter, second_on_sale)]
               (projr (mount shirt no_sale)))) \<and>
   displayedVariant
     (state (run ascii_lower shirt [(MouseEnter, second_on_sale)]
               (projr (mount shirt no_sale))))
     = product_variants shirt ! 0 \<and>
   displayedVariant
     (state (hover_ticks ascii_lower shirt [no_sale]
               (run ascii_lower shirt [(MouseEnter, second_on_sale)]
                  (projr (mount shirt no_sale)))))
     \<noteq> product_variants shirt ! ((0 + 1) mod 2) \<and>
   displayedVariant
     (state (hover_ticks ascii_lower shirt [no_sale]
               (run ascii_lower shirt [(MouseEnter, second_on_sale)]
                  (projr (mount shirt no_sale)))))
     \<noteq> render_variants
           (hover_ticks ascii_lower shirt [no_sale]
              (run ascii_lower shirt [(MouseEnter, second_on_sale)]
                 (projr (mount shirt no_sale)))) ! ((0 + 1) mod 2)"
proof -
  have a: "isHovering
     (state (run ascii_lower shirt [(MouseEnter, second_on_sale)]
               (projr (mount shirt no_sale))))"
    "displayedVariant
     (state (run ascii_lower shirt [(MouseEnter, second_on_sale)]
               (projr (mount shirt no_sale))))
     = product_variants shirt ! 0"
    unfolding shirt_enter_sale by (simp_all add: displayedVariant_def shirt_variants)
  have b: "length (product_variants shirt) = 2" "distinct (map id_v (product_variants shirt))"
    "product_variants shirt ! ((0 + 1) mod 2) = blue"
    by (simp_all add: shirt_variants example_ids)
  show ?thesis
    unfolding shirt_sale_tick using a b example_neq(3)
    by (simp add: displayedVariant_def)
qed

subsection \<open>The price while hovering\<close>

text \<open>
  C1 fails for the price. On the card of the shirt the pointer enters and one tick goes
  by: red is selected and blue is previewed. The price shown is red's, without a
  compare-at price, and not what \<^verbatim>\<open>Price\<close> shows for blue.
\<close>

theorem display_resolution_counterexample:
  "state (hover_ticks ascii_lower shirt [no_sale]
            (run ascii_lower shirt [(MouseEnter, no_sale)] (projr (mount shirt no_sale)))) =
     \<lparr>selectedVariant = red, hoverVariant = Some blue, isHovering = True\<rparr> \<and>
   displayedPrice \<lparr>selectedVariant = red, hoverVariant = Some blue, isHovering = True\<rparr> =
     Plain (price red) \<and>
   displayedPrice \<lparr>selectedVariant = red, hoverVariant = Some blue, isHovering = True\<rparr> \<noteq>
     Price (price blue) (compareAtPrice blue)"
  unfolding shirt_tick
  by (simp add: displayedPrice_def Price_def red_def blue_def example_variant_def)

section \<open>Properties of the catalog fetch\<close>

text \<open>
  C9, as amended. The loader sends the query once, whatever the answer. When the query
  rejects, the handler of \<^verbatim>\<open>.catch\<close> logs the error and the promise handed to the page
  is fulfilled with \<^verbatim>\<open>null\<close>, for which the section renders nothing. A product list
  without entries renders the grid, with no card in it. While the query is pending the
  section shows the fallback "Loading...". In no case does the section throw to the
  error boundary, and nothing in it asks for the query again.
\<close>

theorem catalog_fetch:
  "loadDeferredData \<lparr>storefront_reply = Rejected e\<rparr> io =
     (Fulfilled None,
      io\<lparr>queries_sent := Suc (queries_sent io),
         console_error := console_error io @ [e]\<rparr>) \<and>
   RecommendedProducts (fst (loadDeferredData \<lparr>storefront_reply = Rejected e\<rparr> io))
     = Nothing \<and>
   RecommendedProducts (Fulfilled None) = Nothing \<and>
   RecommendedProducts
     (fst (loadDeferredData
             \<lparr>storefront_reply = Fulfilled \<lparr>products = \<lparr>nodes = []\<rparr>\<rparr>\<rparr> io))
     = Grid [] \<and>
   RecommendedProducts (fst (loadDeferredData \<lparr>storefront_reply = Pending\<rparr> io))
     = Fallback ''Loading...'' \<and>
   RecommendedProducts (fst (loadDeferredData cx io)) \<noteq> Thrown x \<and>
   queries_sent (snd (loadDeferredData cx io)) = Suc (queries_sent io)"
  by (simp add: loadDeferredData_def storefront_query_def RecommendedProducts_def
      split: promise.split)

text \<open>
  The backend answers with an empty list of products: the section renders the grid,
  which is not nothing.
\<close>

theorem catalog_fetch_counterexample:
  "RecommendedProducts
     (fst (loadDeferredData
             \<lparr>storefront_reply = Fulfilled \<lparr>products = \<lparr>nodes = []\<rparr>\<rparr>\<rparr>
             \<lparr>queries_sent = 0, console_error = []\<rparr>))
     = Grid [] \<and>
   Grid [] \<noteq> Nothing"
  by (simp add: loadDeferredData_def storefront_query_def RecommendedProducts_def)

end
